theory Spec2Isabelle
  imports Main "HOL-Library.Word"
begin

unbundle bit_operations_syntax

section \<open>Rygar main board: the bus callback of rygar.c\<close>

text \<open>
  A shallow embedding of \<^verbatim>\<open>rygar_update_palette\<close> and \<^verbatim>\<open>rygar_tick_main\<close> of
  \<^verbatim>\<open>src/rygar.c\<close>. The C globals become one record that every function takes and
  returns. C arrays are functions from the index; an access whose index the
  surrounding guards do not bound (the banked ROM read) checks the bound and
  returns an error otherwise. The C \<^verbatim>\<open>int\<close> counters are modelled as \<^typ>\<open>int\<close>:
  with the tick counts a CPU delivers they stay far inside the 32-bit range.
\<close>

type_synonym u8 = "8 word"
type_synonym u16 = "16 word"
type_synonym u32 = "32 word"

subsection \<open>Constants (lines 19--92)\<close>

definition BETWEEN :: "u16 \<Rightarrow> u16 \<Rightarrow> u16 \<Rightarrow> bool" where
  "BETWEEN n a b = (n \<ge> a \<and> n \<le> b)"

definition CHAR_RAM_SIZE :: u16 where "CHAR_RAM_SIZE = 0x800"
definition CHAR_RAM_START :: u16 where "CHAR_RAM_START = 0xd000"
definition CHAR_RAM_END :: u16 where "CHAR_RAM_END = CHAR_RAM_START + CHAR_RAM_SIZE - 1"

definition FG_RAM_SIZE :: u16 where "FG_RAM_SIZE = 0x400"
definition FG_RAM_START :: u16 where "FG_RAM_START = 0xd800"
definition FG_RAM_END :: u16 where "FG_RAM_END = FG_RAM_START + FG_RAM_SIZE - 1"

definition BG_RAM_SIZE :: u16 where "BG_RAM_SIZE = 0x400"
definition BG_RAM_START :: u16 where "BG_RAM_START = 0xdc00"
definition BG_RAM_END :: u16 where "BG_RAM_END = BG_RAM_START + BG_RAM_SIZE - 1"

definition PALETTE_RAM_SIZE :: u16 where "PALETTE_RAM_SIZE = 0x800"
definition PALETTE_RAM_START :: u16 where "PALETTE_RAM_START = 0xe800"
definition PALETTE_RAM_END :: u16 where
  "PALETTE_RAM_END = PALETTE_RAM_START + PALETTE_RAM_SIZE - 1"

definition RAM_SIZE :: u16 where "RAM_SIZE = 0x3000"
definition RAM_START :: u16 where "RAM_START = 0xc000"
definition RAM_END :: u16 where "RAM_END = RAM_START + RAM_SIZE - 1"

definition BANK_SIZE :: nat where "BANK_SIZE = 0x8000"
definition BANK_WINDOW_SIZE :: u16 where "BANK_WINDOW_SIZE = 0x800"
definition BANK_WINDOW_START :: u16 where "BANK_WINDOW_START = 0xf000"
definition BANK_WINDOW_END :: u16 where
  "BANK_WINDOW_END = BANK_WINDOW_START + BANK_WINDOW_SIZE - 1"

definition JOYSTICK1 :: u16 where "JOYSTICK1 = 0xf800"
definition BUTTONS1 :: u16 where "BUTTONS1 = 0xf801"
definition SYS1 :: u16 where "SYS1 = 0xf804"
definition DIP_SW1_H :: u16 where "DIP_SW1_H = 0xf807"
definition DIP_SW2_H :: u16 where "DIP_SW2_H = 0xf809"

definition FG_SCROLL_START :: u16 where "FG_SCROLL_START = 0xf800"
definition FG_SCROLL_END :: u16 where "FG_SCROLL_END = 0xf802"
definition BG_SCROLL_START :: u16 where "BG_SCROLL_START = 0xf803"
definition BG_SCROLL_END :: u16 where "BG_SCROLL_END = 0xf805"
definition BANK_SWITCH :: u16 where "BANK_SWITCH = 0xf808"

definition SCROLL_OFFSET :: int where "SCROLL_OFFSET = 48"

text \<open>Both macros are C integer expressions: \<^verbatim>\<open>/\<close> truncates.\<close>

definition VSYNC_PERIOD_4MHZ :: int where
  "VSYNC_PERIOD_4MHZ = 4000000 div 60"

definition VBLANK_DURATION_4MHZ :: int where
  "VBLANK_DURATION_4MHZ = ((4000000 div 60) div 525) * (525 - 483)"

subsection \<open>The CPU pin word\<close>

text \<open>
  Modelled from the spec: \<^verbatim>\<open>chips/z80.h\<close> is not part of the sources. The pin word
  carries the address (16 bits), the data (8 bits) and the control flags MREQ, IORQ,
  RD, WR, M1 and INT. It is a record with one field per pin group; a mask test
  \<^verbatim>\<open>pins & Z80_X\<close> reads a flag, \<^verbatim>\<open>pins |= Z80_INT\<close> and \<^verbatim>\<open>pins &= ~Z80_INT\<close> set and
  clear one. Every other pin lives in the record's extension and is never touched.
\<close>

record pins_t =
  pin_addr :: u16
  pin_data :: u8
  pin_M1 :: bool
  pin_MREQ :: bool
  pin_IORQ :: bool
  pin_RD :: bool
  pin_WR :: bool
  pin_INT :: bool

definition Z80_GET_ADDR :: "pins_t \<Rightarrow> u16" where
  "Z80_GET_ADDR p = pin_addr p"

definition Z80_GET_DATA :: "pins_t \<Rightarrow> u8" where
  "Z80_GET_DATA p = pin_data p"

definition Z80_SET_DATA :: "pins_t \<Rightarrow> u8 \<Rightarrow> pins_t" where
  "Z80_SET_DATA p d = p\<lparr>pin_data := d\<rparr>"

subsection \<open>Mapped memory\<close>

text \<open>
  Modelled from the spec: \<^verbatim>\<open>chips/mem.h\<close> is not part of the sources. The mapped
  memory is the CPU's view of the program ROM (\<^verbatim>\<open>0x0000..0xBFFF\<close>) and of the RAM
  arrays that \<^verbatim>\<open>rygar_init\<close> maps at \<^verbatim>\<open>0xC000..0xEFFF\<close>: a read returns the mapped
  byte, a write into RAM stores it, a write into ROM is ignored.
\<close>

type_synonym mem_t = "u16 \<Rightarrow> u8"

definition mem_rd :: "mem_t \<Rightarrow> u16 \<Rightarrow> u8" where
  "mem_rd m a = m a"

definition mem_wr :: "mem_t \<Rightarrow> u16 \<Rightarrow> u8 \<Rightarrow> mem_t" where
  "mem_wr m a d = (if BETWEEN a RAM_START RAM_END then m(a := d) else m)"

subsection \<open>Tilemaps\<close>

text \<open>
  Modelled from the spec: \<^verbatim>\<open>tilemap.h\<close> is not part of the sources. Of a tilemap the
  model keeps the dimensions, the dirty set and the horizontal scroll.
  \<^verbatim>\<open>mark_tile_dirty(idx)\<close> sets bit \<^verbatim>\<open>idx mod (cols*rows)\<close>; \<^verbatim>\<open>set_scroll_x(v)\<close> stores
  \<^verbatim>\<open>v\<close> as a 16-bit wrap value. A map without cells has no such bit (HOL's \<open>mod 0\<close>
  would return \<^verbatim>\<open>idx\<close>); the statements about the dirty set assume the dimensions that
  \<^verbatim>\<open>rygar_decode_tiles\<close> gives the three maps.
\<close>

record tilemap_t =
  cols :: nat
  rows :: nat
  dirty :: "nat set"
  scroll_x :: u16

definition tilemap_mark_tile_dirty :: "tilemap_t \<Rightarrow> nat \<Rightarrow> tilemap_t" where
  "tilemap_mark_tile_dirty t idx = t\<lparr>dirty := insert (idx mod (cols t * rows t)) (dirty t)\<rparr>"

definition tilemap_set_scroll_x :: "tilemap_t \<Rightarrow> int \<Rightarrow> tilemap_t" where
  "tilemap_set_scroll_x t v = t\<lparr>scroll_x := word_of_int v\<rparr>"

subsection \<open>Machine state (lines 94--145)\<close>

text \<open>
  \<^verbatim>\<open>mainboard_t\<close> and \<^verbatim>\<open>rygar_t\<close>. The RAM arrays are reached through \<^verbatim>\<open>mem\<close> only;
  the clock, the CPU, the tile ROMs and the bitmap play no part in the bus callback
  and are left out.
\<close>

record mainboard_t =
  mem :: mem_t
  banked_rom :: "nat \<Rightarrow> u8"
  current_bank :: u8
  joystick :: u8
  buttons :: u8
  sys :: u8
  fg_scroll :: "nat \<Rightarrow> u8"
  bg_scroll :: "nat \<Rightarrow> u8"

record rygar_t =
  main :: mainboard_t
  char_tilemap :: tilemap_t
  fg_tilemap :: tilemap_t
  bg_tilemap :: tilemap_t
  palette :: "nat \<Rightarrow> u32"
  vsync_count :: int
  vblank_count :: int

datatype error = BankedRomOutOfBounds

subsection \<open>Palette cache (lines 156--172)\<close>

definition rygar_update_palette :: "u16 \<Rightarrow> u8 \<Rightarrow> rygar_t \<Rightarrow> rygar_t" where
  "rygar_update_palette addr data rygar =
    (let pal_index = unat (drop_bit 1 addr);
         c = palette rygar pal_index;
         c' = (if addr AND 1 \<noteq> 0 then
                 let r = (data AND 0xf0) OR (drop_bit 4 data AND 0x0f);
                     g = (data AND 0x0f) OR (push_bit 4 data AND 0xf0)
                 in 0xff000000 OR (c AND 0x00ff0000) OR push_bit 8 (ucast g) OR ucast r
               else
                 let b = (data AND 0x0f) OR (push_bit 4 data AND 0xf0)
                 in 0xff000000 OR (c AND 0x0000ffff) OR push_bit 16 (ucast b))
     in rygar\<lparr>palette := (palette rygar)(pal_index := c')\<rparr>)"

subsection \<open>The tick callback (lines 177--245)\<close>

text \<open>Lines 178--190: the vsync and vblank counters, and the INT pin.\<close>

definition tick_timing :: "int \<Rightarrow> pins_t \<Rightarrow> rygar_t \<Rightarrow> pins_t \<times> rygar_t" where
  "tick_timing num_ticks pins rygar =
    (let r1 = rygar\<lparr>vsync_count := vsync_count rygar - num_ticks\<rparr>;
         r2 = (if vsync_count r1 \<le> 0
               then r1\<lparr>vsync_count := vsync_count r1 + VSYNC_PERIOD_4MHZ,
                       vblank_count := VBLANK_DURATION_4MHZ\<rparr>
               else r1)
     in if vblank_count r2 > 0
        then (pins\<lparr>pin_INT := True\<rparr>, r2\<lparr>vblank_count := vblank_count r2 - num_ticks\<rparr>)
        else (pins, r2\<lparr>vblank_count := 0\<rparr>))"

text \<open>The value handed to \<^verbatim>\<open>tilemap_set_scroll_x\<close> (lines 213 and 217).\<close>

definition scroll_value :: "(nat \<Rightarrow> u8) \<Rightarrow> int" where
  "scroll_value scroll = (push_bit 8 (uint (scroll 1)) OR uint (scroll 0)) + SCROLL_OFFSET"

text \<open>Lines 196--220: a memory write cycle.\<close>

definition tick_write :: "u16 \<Rightarrow> u8 \<Rightarrow> rygar_t \<Rightarrow> rygar_t" where
  "tick_write addr data rygar =
    (if BETWEEN addr RAM_START RAM_END then
       let r = rygar\<lparr>main := (main rygar)\<lparr>mem := mem_wr (mem (main rygar)) addr data\<rparr>\<rparr>
       in if BETWEEN addr CHAR_RAM_START CHAR_RAM_END then
            r\<lparr>char_tilemap := tilemap_mark_tile_dirty (char_tilemap r)
                 (unat ((addr - CHAR_RAM_START) AND 0x3ff))\<rparr>
          else if BETWEEN addr FG_RAM_START FG_RAM_END then
            r\<lparr>fg_tilemap := tilemap_mark_tile_dirty (fg_tilemap r)
                 (unat ((addr - FG_RAM_START) AND 0x1ff))\<rparr>
          else if BETWEEN addr BG_RAM_START BG_RAM_END then
            r\<lparr>bg_tilemap := tilemap_mark_tile_dirty (bg_tilemap r)
                 (unat ((addr - BG_RAM_START) AND 0x1ff))\<rparr>
          else if BETWEEN addr PALETTE_RAM_START PALETTE_RAM_END then
            rygar_update_palette (addr - PALETTE_RAM_START) data r
          else r
     else if BETWEEN addr FG_SCROLL_START FG_SCROLL_END then
       let offset = unat (ucast (addr - FG_SCROLL_START) :: u8);
           r = rygar\<lparr>main := (main rygar)\<lparr>fg_scroll := (fg_scroll (main rygar))(offset := data)\<rparr>\<rparr>
       in r\<lparr>fg_tilemap := tilemap_set_scroll_x (fg_tilemap r) (scroll_value (fg_scroll (main r)))\<rparr>
     else if BETWEEN addr BG_SCROLL_START BG_SCROLL_END then
       let offset = unat (ucast (addr - BG_SCROLL_START) :: u8);
           r = rygar\<lparr>main := (main rygar)\<lparr>bg_scroll := (bg_scroll (main rygar))(offset := data)\<rparr>\<rparr>
       in r\<lparr>bg_tilemap := tilemap_set_scroll_x (bg_tilemap r) (scroll_value (bg_scroll (main r)))\<rparr>
     else if addr = BANK_SWITCH then
       rygar\<lparr>main := (main rygar)\<lparr>current_bank := drop_bit 3 data\<rparr>\<rparr>
     else rygar)"

text \<open>
  Lines 222--237: a memory read cycle. \<^verbatim>\<open>banked_addr\<close> is a \<^verbatim>\<open>uint16_t\<close>; the array
  has \<^verbatim>\<open>BANK_SIZE\<close> bytes, and an index beyond it is an error of the model.
\<close>

definition tick_read :: "u16 \<Rightarrow> pins_t \<Rightarrow> rygar_t \<Rightarrow> error + pins_t" where
  "tick_read addr pins rygar =
    (if addr \<le> RAM_END then
       Inr (Z80_SET_DATA pins (mem_rd (mem (main rygar)) addr))
     else if BETWEEN addr BANK_WINDOW_START BANK_WINDOW_END then
       let banked_addr = addr - BANK_WINDOW_START
                         + ucast (current_bank (main rygar)) * BANK_WINDOW_SIZE
       in if unat banked_addr < BANK_SIZE
          then Inr (Z80_SET_DATA pins (banked_rom (main rygar) (unat banked_addr)))
          else Inl BankedRomOutOfBounds
     else if addr = JOYSTICK1 then Inr (Z80_SET_DATA pins (joystick (main rygar)))
     else if addr = BUTTONS1 then Inr (Z80_SET_DATA pins (buttons (main rygar)))
     else if addr = SYS1 then Inr (Z80_SET_DATA pins (sys (main rygar)))
     else if addr = DIP_SW2_H then Inr (Z80_SET_DATA pins 0x8)
     else Inr (Z80_SET_DATA pins 0))"

definition rygar_tick_main :: "int \<Rightarrow> pins_t \<Rightarrow> rygar_t \<Rightarrow> error + (pins_t \<times> rygar_t)" where
  "rygar_tick_main num_ticks pins0 rygar0 =
    (let (pins, rygar) = tick_timing num_ticks pins0 rygar0;
         addr = Z80_GET_ADDR pins
     in if pin_MREQ pins then
          if pin_WR pins then
            Inr (pins, tick_write addr (Z80_GET_DATA pins) rygar)
          else if pin_RD pins then
            (case tick_read addr pins rygar of
               Inl e \<Rightarrow> Inl e
             | Inr pins' \<Rightarrow> Inr (pins', rygar))
          else Inr (pins, rygar)
        else if pin_IORQ pins \<and> pin_M1 pins then
          Inr (pins\<lparr>pin_INT := False\<rparr>, rygar)
        else Inr (pins, rygar))"

subsection \<open>Initial state (lines 371--395)\<close>

text \<open>
  Modelled from the spec: \<^verbatim>\<open>tilemap_init\<close> of \<^verbatim>\<open>tilemap.h\<close> is not part of the
  sources. The model keeps the \<^verbatim>\<open>cols\<close> and \<^verbatim>\<open>rows\<close> of the descriptor passed in
  \<^verbatim>\<open>rygar_decode_tiles\<close> (lines 316--357). Neither the sources nor the spec say which
  tiles are dirty and what the scroll is when it returns: both are parameters.
\<close>

definition tilemap_init :: "nat \<Rightarrow> nat \<Rightarrow> nat set \<Rightarrow> u16 \<Rightarrow> tilemap_t" where
  "tilemap_init c r d x = \<lparr>cols = c, rows = r, dirty = d, scroll_x = x\<rparr>"

text \<open>
  \<^verbatim>\<open>rygar_init\<close>: everything zero, \<^verbatim>\<open>vsync_count\<close> loaded with the period, the ROM
  dumps (opaque bytes, parameters here) mapped below the RAM and copied into the
  banked ROM, and the three tilemaps initialised: each of \<^verbatim>\<open>char0\<close>, \<^verbatim>\<open>fg0\<close> and \<^verbatim>\<open>bg0\<close>
  is the dirty set and the scroll that \<^verbatim>\<open>tilemap_init\<close> leaves in that tilemap.
\<close>

definition rygar_init ::
  "(u16 \<Rightarrow> u8) \<Rightarrow> (nat \<Rightarrow> u8) \<Rightarrow> nat set \<times> u16 \<Rightarrow> nat set \<times> u16 \<Rightarrow> nat set \<times> u16
     \<Rightarrow> rygar_t" where
  "rygar_init program_rom dump_cpu_5j char0 fg0 bg0 =
    \<lparr>main = \<lparr>mem = (\<lambda>a. if a < RAM_START then program_rom a else 0),
              banked_rom = dump_cpu_5j,
              current_bank = 0, joystick = 0, buttons = 0, sys = 0,
              fg_scroll = (\<lambda>_. 0), bg_scroll = (\<lambda>_. 0)\<rparr>,
     char_tilemap = tilemap_init 32 32 (fst char0) (snd char0),
     fg_tilemap = tilemap_init 32 16 (fst fg0) (snd fg0),
     bg_tilemap = tilemap_init 32 16 (fst bg0) (snd bg0),
     palette = (\<lambda>_. 0),
     vsync_count = VSYNC_PERIOD_4MHZ,
     vblank_count = 0\<rparr>"

subsection \<open>Bus cycles and runs of the callback\<close>

text \<open>
  The CPU core is outside the sources; these are the pin words it presents: a
  memory write, a memory read, an interrupt acknowledge (M1 with IORQ) and a cycle
  with no request at all. The core presents each with INT low.
\<close>

definition mem_write_pins :: "u16 \<Rightarrow> u8 \<Rightarrow> pins_t" where
  "mem_write_pins a d =
    \<lparr>pin_addr = a, pin_data = d, pin_M1 = False, pin_MREQ = True, pin_IORQ = False,
     pin_RD = False, pin_WR = True, pin_INT = False\<rparr>"

definition mem_read_pins :: "u16 \<Rightarrow> pins_t" where
  "mem_read_pins a =
    \<lparr>pin_addr = a, pin_data = 0, pin_M1 = False, pin_MREQ = True, pin_IORQ = False,
     pin_RD = True, pin_WR = False, pin_INT = False\<rparr>"

definition int_ack_pins :: pins_t where
  "int_ack_pins =
    \<lparr>pin_addr = 0, pin_data = 0, pin_M1 = True, pin_MREQ = False, pin_IORQ = True,
     pin_RD = False, pin_WR = False, pin_INT = False\<rparr>"

definition idle_pins :: pins_t where
  "idle_pins =
    \<lparr>pin_addr = 0, pin_data = 0, pin_M1 = False, pin_MREQ = False, pin_IORQ = False,
     pin_RD = False, pin_WR = False, pin_INT = False\<rparr>"

text \<open>The branch of line 239: an acknowledge is decoded only when MREQ is low.\<close>

definition is_int_ack :: "pins_t \<Rightarrow> bool" where
  "is_int_ack p = (\<not> pin_MREQ p \<and> pin_IORQ p \<and> pin_M1 p)"

text \<open>
  The callback called once per CPU tick (\<^verbatim>\<open>num_ticks = 1\<close>) on a list of pin words,
  giving the returned pin words and the last state. The first error ends the run.
\<close>

fun run_ticks :: "pins_t list \<Rightarrow> rygar_t \<Rightarrow> error + (pins_t list \<times> rygar_t)" where
  "run_ticks [] rygar = Inr ([], rygar)"
| "run_ticks (p # ps) rygar =
    (case rygar_tick_main 1 p rygar of
       Inl e \<Rightarrow> Inl e
     | Inr (p', rygar') \<Rightarrow>
        (case run_ticks ps rygar' of
           Inl e \<Rightarrow> Inl e
         | Inr (outs, rygar'') \<Rightarrow> Inr (p' # outs, rygar'')))"

text \<open>The number of ticks of a run on which the returned pin word has INT high.\<close>

definition int_ticks :: "pins_t list \<Rightarrow> nat" where
  "int_ticks outs = length (filter pin_INT outs)"

text \<open>
  One machine right after \<^verbatim>\<open>rygar_init\<close>, the input of the examples below: ROM dumps of
  zero bytes, and tilemaps that start with no dirty tile and scroll 0.
\<close>

definition power_on :: rygar_t where
  "power_on = rygar_init (\<lambda>_. 0) (\<lambda>_. 0) ({}, 0) ({}, 0) ({}, 0)"

subsection \<open>Vocabulary of the statements\<close>

text \<open>A memory write cycle as line 194--196 decodes it: MREQ and WR high.\<close>

definition is_mem_write :: "pins_t \<Rightarrow> u16 \<Rightarrow> u8 \<Rightarrow> bool" where
  "is_mem_write p a d = (pin_MREQ p \<and> pin_WR p \<and> pin_addr p = a \<and> pin_data p = d)"

text \<open>
  The tilemap dimensions that \<^verbatim>\<open>rygar_decode_tiles\<close> passes to \<^verbatim>\<open>tilemap_init\<close>
  (lines 316--357): 32 by 32 for the char layer, 32 by 16 for the other two.
\<close>

definition tilemaps_decoded :: "rygar_t \<Rightarrow> bool" where
  "tilemaps_decoded s =
    (cols (char_tilemap s) = 32 \<and> rows (char_tilemap s) = 32 \<and>
     cols (fg_tilemap s) = 32 \<and> rows (fg_tilemap s) = 16 \<and>
     cols (bg_tilemap s) = 32 \<and> rows (bg_tilemap s) = 16)"

text \<open>
  The counters between two reloads, as single ticks leave them once the first reload has
  happened: \<^verbatim>\<open>vsync_count\<close> runs from the period down to 1, and \<^verbatim>\<open>vblank_count\<close> is what
  is left of the vblank duration since the reload.
\<close>

definition in_frame :: "rygar_t \<Rightarrow> bool" where
  "in_frame s =
    (1 \<le> vsync_count s \<and> vsync_count s \<le> VSYNC_PERIOD_4MHZ \<and>
     vblank_count s = max 0 (vsync_count s - (VSYNC_PERIOD_4MHZ - VBLANK_DURATION_4MHZ + 1)))"

text \<open>Ticks since the last reload.\<close>

definition frame_pos :: "rygar_t \<Rightarrow> nat" where
  "frame_pos s = nat (VSYNC_PERIOD_4MHZ - vsync_count s)"

text \<open>
  How many of the instants \<^verbatim>\<open>0, ..., t - 1\<close> fall in the first 5292 of their period of
  66666.
\<close>

definition int_upto :: "nat \<Rightarrow> nat" where
  "int_upto t = (t div 66666) * 5292 + min (t mod 66666) 5292"

section \<open>Properties\<close>

lemmas addr_consts =
  CHAR_RAM_SIZE_def CHAR_RAM_START_def CHAR_RAM_END_def
  FG_RAM_SIZE_def FG_RAM_START_def FG_RAM_END_def
  BG_RAM_SIZE_def BG_RAM_START_def BG_RAM_END_def
  PALETTE_RAM_SIZE_def PALETTE_RAM_START_def PALETTE_RAM_END_def
  RAM_SIZE_def RAM_START_def RAM_END_def
  BANK_WINDOW_SIZE_def BANK_WINDOW_START_def BANK_WINDOW_END_def
  JOYSTICK1_def BUTTONS1_def SYS1_def DIP_SW1_H_def DIP_SW2_H_def
  FG_SCROLL_START_def FG_SCROLL_END_def BG_SCROLL_START_def BG_SCROLL_END_def
  BANK_SWITCH_def

subsection \<open>The parts of the callback\<close>

lemma timing_pins:
  "fst (tick_timing n p s) =
     (if (if vsync_count s - n \<le> 0 then 0 < VBLANK_DURATION_4MHZ else 0 < vblank_count s)
      then p\<lparr>pin_INT := True\<rparr> else p)"
  by (simp add: tick_timing_def Let_def)

lemma timing_pins_fields:
  "pin_addr (fst (tick_timing n p s)) = pin_addr p"
  "pin_data (fst (tick_timing n p s)) = pin_data p"
  "pin_M1 (fst (tick_timing n p s)) = pin_M1 p"
  "pin_MREQ (fst (tick_timing n p s)) = pin_MREQ p"
  "pin_IORQ (fst (tick_timing n p s)) = pin_IORQ p"
  "pin_RD (fst (tick_timing n p s)) = pin_RD p"
  "pin_WR (fst (tick_timing n p s)) = pin_WR p"
  by (simp_all add: timing_pins)

lemma timing_state_fields:
  "main (snd (tick_timing n p s)) = main s"
  "char_tilemap (snd (tick_timing n p s)) = char_tilemap s"
  "fg_tilemap (snd (tick_timing n p s)) = fg_tilemap s"
  "bg_tilemap (snd (tick_timing n p s)) = bg_tilemap s"
  "palette (snd (tick_timing n p s)) = palette s"
  by (simp_all add: tick_timing_def Let_def)

lemma timing_state:
  "snd (tick_timing n p s) =
     s\<lparr>vsync_count := vsync_count (snd (tick_timing n p s)),
       vblank_count := vblank_count (snd (tick_timing n p s))\<rparr>"
  by (simp add: tick_timing_def Let_def)

lemma timing_int:
  "pin_INT (fst (tick_timing n p s)) = (pin_INT p \<or> vsync_count s \<le> n \<or> 0 < vblank_count s)"
  by (simp add: tick_timing_def Let_def VBLANK_DURATION_4MHZ_def)

lemma timing_counters:
  "vsync_count (snd (tick_timing n p s)) =
     (if vsync_count s \<le> n then vsync_count s - n + VSYNC_PERIOD_4MHZ else vsync_count s - n)"
  "vblank_count (snd (tick_timing n p s)) =
     (if vsync_count s \<le> n then VBLANK_DURATION_4MHZ - n
      else if 0 < vblank_count s then vblank_count s - n else 0)"
  by (simp_all add: tick_timing_def Let_def VBLANK_DURATION_4MHZ_def)

lemma tick_main_write:
  "pin_MREQ p \<Longrightarrow> pin_WR p \<Longrightarrow>
   rygar_tick_main n p s =
     Inr (fst (tick_timing n p s),
          tick_write (pin_addr p) (pin_data p) (snd (tick_timing n p s)))"
  by (simp add: rygar_tick_main_def split_beta Let_def timing_pins_fields
      Z80_GET_ADDR_def Z80_GET_DATA_def)

lemma tick_main_read:
  "pin_MREQ p \<Longrightarrow> \<not> pin_WR p \<Longrightarrow> pin_RD p \<Longrightarrow>
   rygar_tick_main n p s =
     (case tick_read (pin_addr p) (fst (tick_timing n p s)) (snd (tick_timing n p s)) of
        Inl e \<Rightarrow> Inl e
      | Inr p' \<Rightarrow> Inr (p', snd (tick_timing n p s)))"
  by (simp add: rygar_tick_main_def split_beta Let_def timing_pins_fields Z80_GET_ADDR_def)

lemma tick_main_ack:
  "is_int_ack p \<Longrightarrow>
   rygar_tick_main n p s =
     Inr ((fst (tick_timing n p s))\<lparr>pin_INT := False\<rparr>, snd (tick_timing n p s))"
  by (simp add: rygar_tick_main_def split_beta Let_def timing_pins_fields is_int_ack_def)

lemma tick_main_other:
  "\<not> pin_MREQ p \<Longrightarrow> \<not> is_int_ack p \<Longrightarrow>
   rygar_tick_main n p s = Inr (fst (tick_timing n p s), snd (tick_timing n p s))"
  by (auto simp add: rygar_tick_main_def split_beta Let_def timing_pins_fields is_int_ack_def)

lemma tick_total:
  assumes "\<not> (pin_MREQ p \<and> pin_RD p \<and> \<not> pin_WR p)"
  shows "\<exists>p' s'. rygar_tick_main n p s = Inr (p', s')"
  using assms
  by (auto simp add: rygar_tick_main_def split_beta Let_def timing_pins_fields)

lemma write_counters:
  "vsync_count (tick_write a d r) = vsync_count r"
  "vblank_count (tick_write a d r) = vblank_count r"
  by (simp_all add: tick_write_def Let_def rygar_update_palette_def
      tilemap_mark_tile_dirty_def tilemap_set_scroll_x_def)

lemma read_int: "tick_read a q r = Inr q' \<Longrightarrow> pin_INT q' = pin_INT q"
  by (auto simp add: tick_read_def Let_def Z80_SET_DATA_def split: if_splits)

lemma tick_main_timing:
  assumes "rygar_tick_main n p s = Inr (p', s')"
  shows "vsync_count s' = vsync_count (snd (tick_timing n p s))"
    and "vblank_count s' = vblank_count (snd (tick_timing n p s))"
    and "pin_INT p' = (\<not> is_int_ack p \<and> pin_INT (fst (tick_timing n p s)))"
proof -
  consider (wr) "pin_MREQ p" "pin_WR p"
    | (rd) "pin_MREQ p" "\<not> pin_WR p" "pin_RD p"
    | (no) "pin_MREQ p" "\<not> pin_WR p" "\<not> pin_RD p"
    | (ack) "is_int_ack p"
    | (idle) "\<not> pin_MREQ p" "\<not> is_int_ack p"
    by blast
  then have "vsync_count s' = vsync_count (snd (tick_timing n p s)) \<and>
     vblank_count s' = vblank_count (snd (tick_timing n p s)) \<and>
     pin_INT p' = (\<not> is_int_ack p \<and> pin_INT (fst (tick_timing n p s)))"
  proof cases
    case wr
    with assms show ?thesis
      by (auto simp add: tick_main_write write_counters is_int_ack_def)
  next
    case rd
    with assms show ?thesis
      by (auto simp add: tick_main_read is_int_ack_def split: sum.splits dest: read_int)
  next
    case no
    with assms show ?thesis
      by (auto simp add: rygar_tick_main_def split_beta Let_def timing_pins_fields is_int_ack_def)
  next
    case ack
    with assms show ?thesis
      by (auto simp add: tick_main_ack)
  next
    case idle
    with assms show ?thesis
      by (auto simp add: tick_main_other)
  qed
  then show "vsync_count s' = vsync_count (snd (tick_timing n p s))"
    and "vblank_count s' = vblank_count (snd (tick_timing n p s))"
    and "pin_INT p' = (\<not> is_int_ack p \<and> pin_INT (fst (tick_timing n p s)))"
    by simp_all
qed

subsection \<open>Palette cache\<close>

lemma write_palette:
  "BETWEEN a PALETTE_RAM_START PALETTE_RAM_END \<Longrightarrow>
   tick_write a d r = rygar_update_palette (a - PALETTE_RAM_START) d
      (r\<lparr>main := (main r)\<lparr>mem := mem_wr (mem (main r)) a d\<rparr>\<rparr>)"
  unfolding tick_write_def BETWEEN_def addr_consts Let_def
  by (simp add: word_le_nat_alt)

lemma lit_alpha: "(0xff000000 :: u32) = push_bit 24 (mask 8)"
  by (simp add: mask_eq_exp_minus_1)

lemma lit_blue: "(0x00ff0000 :: u32) = push_bit 16 (mask 8)"
  by (simp add: mask_eq_exp_minus_1)

lemma lit_low16: "(0xffff :: u32) = mask 16"
  by (simp add: mask_eq_exp_minus_1)

lemma lit_low8: "(0xff :: u32) = mask 8"
  by (simp add: mask_eq_exp_minus_1)

lemmas lits = lit_alpha lit_blue lit_low16 lit_low8

lemma odd_alpha:
  "drop_bit 24 ((0xff000000 :: u32) OR (c AND 0x00ff0000)
     OR push_bit 8 (ucast (g::u8)) OR ucast (r::u8)) = 0xFF"
  unfolding lits
  by (rule bit_word_eqI) (auto simp add: bit_simps dest: bit_imp_le_length)

lemma odd_red:
  "ucast ((0xff000000 :: u32) OR (c AND 0x00ff0000)
     OR push_bit 8 (ucast (g::u8)) OR ucast (r::u8)) = r"
  unfolding lits
  by (rule bit_word_eqI) (auto simp add: bit_simps dest: bit_imp_le_length)

lemma odd_green:
  "ucast (drop_bit 8 ((0xff000000 :: u32) OR (c AND 0x00ff0000)
     OR push_bit 8 (ucast (g::u8)) OR ucast (r::u8))) = g"
  unfolding lits
  by (rule bit_word_eqI) (auto simp add: bit_simps dest: bit_imp_le_length)

lemma odd_keeps:
  "((0xff000000 :: u32) OR (c AND 0x00ff0000)
     OR push_bit 8 (ucast (g::u8)) OR ucast (r::u8)) AND 0x00ff0000 = c AND 0x00ff0000"
  unfolding lits
  by (rule bit_word_eqI) (auto simp add: bit_simps dest: bit_imp_le_length)

lemma even_alpha:
  "drop_bit 24 ((0xff000000 :: u32) OR (c AND 0x0000ffff)
     OR push_bit 16 (ucast (b::u8))) = 0xFF"
  unfolding lits
  by (rule bit_word_eqI) (auto simp add: bit_simps dest: bit_imp_le_length)

lemma even_blue:
  "ucast (drop_bit 16 ((0xff000000 :: u32) OR (c AND 0x0000ffff)
     OR push_bit 16 (ucast (b::u8)))) = b"
  unfolding lits
  by (rule bit_word_eqI) (auto simp add: bit_simps dest: bit_imp_le_length)

lemma even_keeps:
  "((0xff000000 :: u32) OR (c AND 0x0000ffff)
     OR push_bit 16 (ucast (b::u8))) AND 0xffff = c AND 0xffff"
  unfolding lits
  by (rule bit_word_eqI) (auto simp add: bit_simps dest: bit_imp_le_length)

lemma pal_odd:
  "off AND 1 \<noteq> 0 \<Longrightarrow> i = unat (drop_bit 1 off) \<Longrightarrow>
   palette (rygar_update_palette off d s) i =
     0xff000000 OR (palette s i AND 0x00ff0000)
       OR push_bit 8 (ucast ((d AND 0x0f) OR (push_bit 4 d AND 0xf0)))
       OR ucast ((d AND 0xf0) OR (drop_bit 4 d AND 0x0f))"
  by (simp add: rygar_update_palette_def Let_def)

lemma pal_even:
  "off AND 1 = 0 \<Longrightarrow> i = unat (drop_bit 1 off) \<Longrightarrow>
   palette (rygar_update_palette off d s) i =
     0xff000000 OR (palette s i AND 0x0000ffff)
       OR push_bit 16 (ucast ((d AND 0x0f) OR (push_bit 4 d AND 0xf0)))"
  by (simp add: rygar_update_palette_def Let_def)

lemma pal_others:
  "i = unat (drop_bit 1 off) \<Longrightarrow>
   palette (rygar_update_palette off d s) = (palette s)(i := palette (rygar_update_palette off d s) i)"
  by (simp add: rygar_update_palette_def Let_def)

lemma pal_rest: "(rygar_update_palette off d s)\<lparr>palette := palette s\<rparr> = s"
  by (simp add: rygar_update_palette_def Let_def)

text \<open>
  C3, as the source has it. From a palette cache whose entry 0 is zero, writing \<^verbatim>\<open>0x05\<close>
  to palette offset \<^verbatim>\<open>0x000\<close> makes entry 0 \<^verbatim>\<open>0xFF550000\<close>; writing \<^verbatim>\<open>0xAB\<close> to offset
  \<^verbatim>\<open>0x001\<close> then makes it \<^verbatim>\<open>0xFF55BBAA\<close>: red byte \<^verbatim>\<open>0xAA\<close>, green byte \<^verbatim>\<open>0xBB\<close>, blue byte
  \<^verbatim>\<open>0x55\<close>, alpha byte \<^verbatim>\<open>0xFF\<close>.
\<close>

theorem palette_scenario:
  "palette s 0 = 0 \<Longrightarrow>
   palette (rygar_update_palette 0 0x05 s) 0 = 0xFF550000 \<and>
   (let c = palette (rygar_update_palette 1 0xAB (rygar_update_palette 0 0x05 s)) 0
    in c = 0xFF55BBAA \<and>
       (ucast c :: u8) = 0xAA \<and> (ucast (drop_bit 8 c) :: u8) = 0xBB \<and>
       (ucast (drop_bit 16 c) :: u8) = 0x55 \<and> (ucast (drop_bit 24 c) :: u8) = 0xFF)"
  by (simp add: rygar_update_palette_def)

theorem palette_scenario_witness:
  "palette power_on 0 = 0 \<and>
   palette (rygar_update_palette 0 0x05 power_on) 0 = 0xFF550000 \<and>
   palette (rygar_update_palette 1 0xAB
      (rygar_update_palette 0 0x05 power_on)) 0 = 0xFF55BBAA"
  using palette_scenario [of power_on]
  by (simp add: power_on_def rygar_init_def Let_def)

text \<open>
  C3 as stated fails: after the two writes entry 0 is not \<^verbatim>\<open>0xFF5500BA\<close>.
\<close>

theorem palette_scenario_not_ff5500ba:
  "palette (rygar_update_palette 1 0xAB
      (rygar_update_palette 0 0x05 power_on)) 0 \<noteq> 0xFF5500BA"
  by (simp add: rygar_update_palette_def power_on_def rygar_init_def)

text \<open>
  C6. A CPU write of byte \<^verbatim>\<open>b\<close> to a palette RAM address \<^verbatim>\<open>a\<close> returns normally, and
  afterwards the entry \<^verbatim>\<open>(a - 0xE800) >> 1\<close> of the palette cache has alpha byte
  \<^verbatim>\<open>0xFF\<close>; at an even offset its blue byte is \<^verbatim>\<open>(b & 0x0F) | ((b << 4) & 0xF0)\<close>, at an
  odd offset its red byte is \<^verbatim>\<open>(b & 0xF0) | ((b >> 4) & 0x0F)\<close> and its green byte is
  \<^verbatim>\<open>(b & 0x0F) | ((b << 4) & 0xF0)\<close>.
\<close>

theorem palette_write_decodes:
  assumes "pin_MREQ p" and "pin_WR p"
    and "BETWEEN (pin_addr p) PALETTE_RAM_START PALETTE_RAM_END"
  shows "\<exists>p' s'. rygar_tick_main n p s = Inr (p', s') \<and>
     (let off = pin_addr p - 0xE800; b = pin_data p; c = palette s' (unat (drop_bit 1 off))
      in drop_bit 24 c = 0xFF \<and>
         (if off AND 1 = 0
          then ucast (drop_bit 16 c) = (b AND 0x0F) OR (push_bit 4 b AND 0xF0)
          else ucast c = (b AND 0xF0) OR (drop_bit 4 b AND 0x0F) \<and>
               ucast (drop_bit 8 c) = (b AND 0x0F) OR (push_bit 4 b AND 0xF0)))"
proof -
  define off where "off = pin_addr p - 0xE800"
  define i where "i = unat (drop_bit 1 off)"
  define r where "r = (snd (tick_timing n p s))\<lparr>main := (main (snd (tick_timing n p s)))
           \<lparr>mem := mem_wr (mem (main (snd (tick_timing n p s)))) (pin_addr p) (pin_data p)\<rparr>\<rparr>"
  have run: "rygar_tick_main n p s =
      Inr (fst (tick_timing n p s), rygar_update_palette off (pin_data p) r)"
    using assms by (simp add: tick_main_write write_palette off_def r_def PALETTE_RAM_START_def)
  have "drop_bit 24 (palette (rygar_update_palette off (pin_data p) r) i) = 0xFF \<and>
         (if off AND 1 = 0
          then ucast (drop_bit 16 (palette (rygar_update_palette off (pin_data p) r) i))
                 = (pin_data p AND 0x0F) OR (push_bit 4 (pin_data p) AND 0xF0)
          else ucast (palette (rygar_update_palette off (pin_data p) r) i)
                 = (pin_data p AND 0xF0) OR (drop_bit 4 (pin_data p) AND 0x0F) \<and>
               ucast (drop_bit 8 (palette (rygar_update_palette off (pin_data p) r) i))
                 = (pin_data p AND 0x0F) OR (push_bit 4 (pin_data p) AND 0xF0))"
  proof (cases "off AND 1 = 0")
    case True
    then show ?thesis
      by (simp only: pal_even [OF True i_def] even_alpha even_blue if_True simp_thms)
  next
    case False
    then show ?thesis
      by (simp only: pal_odd [OF False i_def] odd_alpha odd_red odd_green if_False simp_thms)
  qed
  then show ?thesis
    unfolding run Let_def off_def [symmetric] i_def [symmetric] by blast
qed

theorem palette_write_decodes_witness:
  "pin_MREQ (mem_write_pins 0xE801 0xAB) \<and> pin_WR (mem_write_pins 0xE801 0xAB) \<and>
   BETWEEN (pin_addr (mem_write_pins 0xE801 0xAB)) PALETTE_RAM_START PALETTE_RAM_END \<and>
   (\<exists>p' s'. rygar_tick_main 1 (mem_write_pins 0xE801 0xAB) power_on
        = Inr (p', s') \<and>
      drop_bit 24 (palette s' 0) = 0xFF \<and> ucast (palette s' 0) = (0xAA :: u8) \<and>
      ucast (drop_bit 8 (palette s' 0)) = (0xBB :: u8))"
  using palette_write_decodes [of "mem_write_pins 0xE801 0xAB" 1 power_on]
  by (simp add: mem_write_pins_def BETWEEN_def addr_consts Let_def)

lemma palette_update_any:
  "(let s' = rygar_update_palette off d s; i = unat (drop_bit 1 off)
    in palette s' = (palette s)(i := palette s' i) \<and>
       (if off AND 1 = 0
        then palette s' i AND 0xFFFF = palette s i AND 0xFFFF
        else palette s' i AND 0xFF0000 = palette s i AND 0xFF0000) \<and>
       s'\<lparr>palette := palette s\<rparr> = s)"
proof -
  define i where "i = unat (drop_bit 1 off)"
  have others: "palette (rygar_update_palette off d s)
      = (palette s)(i := palette (rygar_update_palette off d s) i)"
    by (rule pal_others [OF i_def])
  have chan: "if off AND 1 = 0
      then palette (rygar_update_palette off d s) i AND 0xFFFF = palette s i AND 0xFFFF
      else palette (rygar_update_palette off d s) i AND 0xFF0000 = palette s i AND 0xFF0000"
  proof (cases "off AND 1 = 0")
    case True
    have "palette (rygar_update_palette off d s) i AND 0xFFFF = palette s i AND 0xFFFF"
      by (simp only: pal_even [OF True i_def] even_keeps)
    with True show ?thesis by simp
  next
    case False
    have "palette (rygar_update_palette off d s) i AND 0xFF0000 = palette s i AND 0xFF0000"
      by (simp only: pal_odd [OF False i_def] odd_keeps)
    with False show ?thesis by simp
  qed
  show ?thesis
    unfolding Let_def i_def [symmetric] using others chan pal_rest by blast
qed

lemma pal_index_bound: "(off :: u16) < 0x800 \<Longrightarrow> unat (drop_bit 1 off) < 1024"
proof -
  assume "off < 0x800"
  then have "unat off < 2048" by (simp add: word_less_nat_alt)
  moreover have "unat (drop_bit 1 off) = unat off div 2"
    by (simp add: drop_bit_eq_div unat_div)
  ultimately show ?thesis by simp
qed

text \<open>
  C7. An update of the palette cache at a palette RAM offset \<^verbatim>\<open>off\<close> (below \<^verbatim>\<open>0x800\<close>, as
  the caller passes it) changes entry \<^verbatim>\<open>off >> 1\<close>, which lies within the 1024 entries,
  and no other entry (and nothing else of the machine); at an even offset the red and
  green bytes of the entry stay, at an odd offset its blue byte stays.
\<close>

theorem palette_update_frame:
  assumes "off < 0x800"
  shows "(let s' = rygar_update_palette off d s; i = unat (drop_bit 1 off)
    in i < 1024 \<and>
       palette s' = (palette s)(i := palette s' i) \<and>
       (if off AND 1 = 0
        then palette s' i AND 0xFFFF = palette s i AND 0xFFFF
        else palette s' i AND 0xFF0000 = palette s i AND 0xFF0000) \<and>
       s'\<lparr>palette := palette s\<rparr> = s)"
  using palette_update_any [of off d s] pal_index_bound [OF assms]
  by (simp add: Let_def)

theorem palette_update_frame_witness:
  "(0x7FF :: u16) < 0x800 \<and> unat (drop_bit 1 (0x7FF :: u16)) = 1023 \<and>
   palette (rygar_update_palette 0x7FF 0xAB power_on) = (palette power_on)(1023 := 0xFF00BBAA) \<and>
   palette (rygar_update_palette 0x7FF 0xAB power_on) 1023 AND 0xFF0000
     = palette power_on 1023 AND 0xFF0000"
proof -
  have i: "unat (drop_bit 1 (0x7FF :: u16)) = 1023" by simp
  have e: "palette (rygar_update_palette 0x7FF 0xAB power_on) 1023 = 0xFF00BBAA"
    by (simp add: rygar_update_palette_def power_on_def rygar_init_def)
  from palette_update_frame [of "0x7FF" "0xAB" power_on]
  show ?thesis unfolding Let_def i by (simp add: e)
qed

subsection \<open>Tile RAM writes\<close>

lemma write_char:
  "BETWEEN a CHAR_RAM_START CHAR_RAM_END \<Longrightarrow>
   tick_write a d r =
     r\<lparr>main := (main r)\<lparr>mem := mem_wr (mem (main r)) a d\<rparr>,
       char_tilemap := tilemap_mark_tile_dirty (char_tilemap r) (unat ((a - 0xD000) AND 0x3ff))\<rparr>"
  unfolding tick_write_def BETWEEN_def addr_consts Let_def
  by (simp add: word_le_nat_alt)

lemma write_fg:
  "BETWEEN a FG_RAM_START FG_RAM_END \<Longrightarrow>
   tick_write a d r =
     r\<lparr>main := (main r)\<lparr>mem := mem_wr (mem (main r)) a d\<rparr>,
       fg_tilemap := tilemap_mark_tile_dirty (fg_tilemap r) (unat ((a - 0xD800) AND 0x1ff))\<rparr>"
  unfolding tick_write_def BETWEEN_def addr_consts Let_def
  by (simp add: word_le_nat_alt)

lemma write_bg:
  "BETWEEN a BG_RAM_START BG_RAM_END \<Longrightarrow>
   tick_write a d r =
     r\<lparr>main := (main r)\<lparr>mem := mem_wr (mem (main r)) a d\<rparr>,
       bg_tilemap := tilemap_mark_tile_dirty (bg_tilemap r) (unat ((a - 0xDC00) AND 0x1ff))\<rparr>"
  unfolding tick_write_def BETWEEN_def addr_consts Let_def
  by (simp add: word_le_nat_alt)

lemma and_3ff_less: "unat ((w :: u16) AND 0x3ff) < 1024"
proof -
  have "unat (w AND 0x3ff) \<le> unat (0x3ff :: u16)"
    by (rule word_and_le1 [THEN word_le_nat_alt [THEN iffD1]])
  then show ?thesis by simp
qed

lemma and_1ff_less: "unat ((w :: u16) AND 0x1ff) < 512"
proof -
  have "unat (w AND 0x1ff) \<le> unat (0x1ff :: u16)"
    by (rule word_and_le1 [THEN word_le_nat_alt [THEN iffD1]])
  then show ?thesis by simp
qed

lemma tile_ranges:
  "BETWEEN (a::u16) 0xD000 0xDFFF \<Longrightarrow> a \<le> 0xD7FF \<Longrightarrow> BETWEEN a CHAR_RAM_START CHAR_RAM_END"
  "BETWEEN (a::u16) 0xD000 0xDFFF \<Longrightarrow> \<not> a \<le> 0xD7FF \<Longrightarrow> a \<le> 0xDBFF \<Longrightarrow> BETWEEN a FG_RAM_START FG_RAM_END"
  "BETWEEN (a::u16) 0xD000 0xDFFF \<Longrightarrow> \<not> a \<le> 0xDBFF \<Longrightarrow> BETWEEN a BG_RAM_START BG_RAM_END"
  unfolding BETWEEN_def addr_consts
  by (simp_all add: word_le_nat_alt)

text \<open>
  C5. A CPU write cycle at an address in \<^verbatim>\<open>0xD000..0xDFFF\<close> makes one call of
  \<^verbatim>\<open>tilemap_mark_tile_dirty\<close>, on one tilemap, and leaves the other two tilemaps alone:
  char tile \<^verbatim>\<open>(addr - 0xD000) & 0x3FF\<close> up to \<^verbatim>\<open>0xD7FF\<close>, fg tile
  \<^verbatim>\<open>(addr - 0xD800) & 0x1FF\<close> up to \<^verbatim>\<open>0xDBFF\<close>, bg tile \<^verbatim>\<open>(addr - 0xDC00) & 0x1FF\<close> above;
  that tile joins the dirty set of its tilemap. The witness has the writes to \<^verbatim>\<open>0xD801\<close>
  and \<^verbatim>\<open>0xDA01\<close>, which both mark fg tile 1 and no other.
\<close>

theorem tile_write_marks_one_tile:
  assumes w: "pin_MREQ p" "pin_WR p"
    and a: "BETWEEN (pin_addr p) 0xD000 0xDFFF"
    and dims: "tilemaps_decoded s"
  shows "\<exists>p' s'. rygar_tick_main n p s = Inr (p', s') \<and>
     (if pin_addr p \<le> 0xD7FF then
        char_tilemap s' = tilemap_mark_tile_dirty (char_tilemap s)
          (unat ((pin_addr p - 0xD000) AND 0x3FF)) \<and>
        dirty (char_tilemap s') =
          insert (unat ((pin_addr p - 0xD000) AND 0x3FF)) (dirty (char_tilemap s)) \<and>
        fg_tilemap s' = fg_tilemap s \<and> bg_tilemap s' = bg_tilemap s
      else if pin_addr p \<le> 0xDBFF then
        fg_tilemap s' = tilemap_mark_tile_dirty (fg_tilemap s)
          (unat ((pin_addr p - 0xD800) AND 0x1FF)) \<and>
        dirty (fg_tilemap s') =
          insert (unat ((pin_addr p - 0xD800) AND 0x1FF)) (dirty (fg_tilemap s)) \<and>
        char_tilemap s' = char_tilemap s \<and> bg_tilemap s' = bg_tilemap s
      else
        bg_tilemap s' = tilemap_mark_tile_dirty (bg_tilemap s)
          (unat ((pin_addr p - 0xDC00) AND 0x1FF)) \<and>
        dirty (bg_tilemap s') =
          insert (unat ((pin_addr p - 0xDC00) AND 0x1FF)) (dirty (bg_tilemap s)) \<and>
        char_tilemap s' = char_tilemap s \<and> fg_tilemap s' = fg_tilemap s)"
proof -
  note run = tick_main_write [OF w, of n s]
  consider (ch) "pin_addr p \<le> 0xD7FF"
    | (fg) "\<not> pin_addr p \<le> 0xD7FF" "pin_addr p \<le> 0xDBFF"
    | (bg) "\<not> pin_addr p \<le> 0xD7FF" "\<not> pin_addr p \<le> 0xDBFF"
    by blast
  then show ?thesis
  proof cases
    case ch
    have "unat ((pin_addr p - 0xD000) AND 0x3FF) mod (32 * 32) = unat ((pin_addr p - 0xD000) AND 0x3FF)"
      using and_3ff_less [of "pin_addr p - 0xD000"] by simp
    with ch dims show ?thesis
      unfolding run
      by (simp add: write_char [OF tile_ranges(1) [OF a ch]] timing_state_fields
          tilemap_mark_tile_dirty_def tilemaps_decoded_def)
  next
    case fg
    have "unat ((pin_addr p - 0xD800) AND 0x1FF) mod (32 * 16) = unat ((pin_addr p - 0xD800) AND 0x1FF)"
      using and_1ff_less [of "pin_addr p - 0xD800"] by simp
    with fg dims show ?thesis
      unfolding run
      by (simp add: write_fg [OF tile_ranges(2) [OF a fg]] timing_state_fields
          tilemap_mark_tile_dirty_def tilemaps_decoded_def)
  next
    case bg
    have "unat ((pin_addr p - 0xDC00) AND 0x1FF) mod (32 * 16) = unat ((pin_addr p - 0xDC00) AND 0x1FF)"
      using and_1ff_less [of "pin_addr p - 0xDC00"] by simp
    with bg dims show ?thesis
      unfolding run
      by (simp add: write_bg [OF tile_ranges(3) [OF a bg(2)]] timing_state_fields
          tilemap_mark_tile_dirty_def tilemaps_decoded_def)
  qed
qed

theorem tile_write_marks_one_tile_witness:
  "tilemaps_decoded power_on \<and>
   BETWEEN (pin_addr (mem_write_pins 0xD801 0x41)) 0xD000 0xDFFF \<and>
   BETWEEN (pin_addr (mem_write_pins 0xDA01 0x41)) 0xD000 0xDFFF \<and>
   (\<exists>p' s'. rygar_tick_main 1 (mem_write_pins 0xD801 0x41) power_on = Inr (p', s') \<and>
      dirty (fg_tilemap s') = {1} \<and> dirty (char_tilemap s') = {} \<and> dirty (bg_tilemap s') = {}) \<and>
   (\<exists>p' s'. rygar_tick_main 1 (mem_write_pins 0xDA01 0x41) power_on = Inr (p', s') \<and>
      dirty (fg_tilemap s') = {1} \<and> dirty (char_tilemap s') = {} \<and> dirty (bg_tilemap s') = {})"
  using tile_write_marks_one_tile [of "mem_write_pins 0xD801 0x41" power_on 1]
        tile_write_marks_one_tile [of "mem_write_pins 0xDA01 0x41" power_on 1]
  by (auto simp add: mem_write_pins_def BETWEEN_def tilemaps_decoded_def rygar_init_def tilemap_init_def power_on_def)

text \<open>
  The dimensions are those of every state the callback can reach: they hold after
  \<^verbatim>\<open>rygar_init\<close> and no cycle changes them.
\<close>

lemma init_dims: "tilemaps_decoded (rygar_init program_rom dump_cpu_5j char0 fg0 bg0)"
  by (simp add: tilemaps_decoded_def rygar_init_def tilemap_init_def)

lemma power_on_dims: "tilemaps_decoded power_on"
  unfolding power_on_def by (rule init_dims)

lemma write_dims:
  "tilemaps_decoded (tick_write a d r) = tilemaps_decoded r"
  by (simp add: tick_write_def Let_def rygar_update_palette_def tilemaps_decoded_def
      tilemap_mark_tile_dirty_def tilemap_set_scroll_x_def)

lemma tick_keeps_dims:
  assumes "rygar_tick_main n p s = Inr (p', s')" and "tilemaps_decoded s"
  shows "tilemaps_decoded s'"
proof -
  have t: "tilemaps_decoded (snd (tick_timing n p s))"
    using assms(2) by (simp add: tilemaps_decoded_def timing_state_fields)
  from assms(1) have "s' = snd (tick_timing n p s) \<or>
      s' = tick_write (pin_addr p) (pin_data p) (snd (tick_timing n p s))"
    by (auto simp add: rygar_tick_main_def split_beta Let_def timing_pins_fields
        Z80_GET_ADDR_def Z80_GET_DATA_def split: if_splits sum.splits)
  with t show ?thesis by (auto simp add: write_dims)
qed

subsection \<open>Scroll latches\<close>

lemma offset_u8:
  assumes "BETWEEN a lo hi" and "unat hi - unat lo < 256"
  shows "unat (ucast (a - lo) :: u8) = unat (a - lo)"
proof -
  from assms(1) have "lo \<le> a" "a \<le> hi" by (simp_all add: BETWEEN_def)
  then have "unat (a - lo) = unat a - unat lo" "unat a \<le> unat hi"
    by (simp_all add: unat_sub word_le_nat_alt)
  with assms(2) have "unat (a - lo) < 2 ^ 8" by simp
  then show ?thesis
    by (simp add: unsigned_ucast_eq take_bit_nat_eq_self)
qed

lemma write_fg_scroll:
  assumes "BETWEEN a FG_SCROLL_START FG_SCROLL_END"
  shows "tick_write a d r =
     r\<lparr>main := (main r)\<lparr>fg_scroll := (fg_scroll (main r))(unat (a - 0xF800) := d)\<rparr>,
       fg_tilemap := (fg_tilemap r)\<lparr>scroll_x :=
          word_of_int (scroll_value ((fg_scroll (main r))(unat (a - 0xF800) := d)))\<rparr>\<rparr>"
proof -
  have off: "unat (ucast (a - FG_SCROLL_START) :: u8) = unat (a - 0xF800)"
    using offset_u8 [OF assms] by (simp add: addr_consts)
  have "\<not> BETWEEN a RAM_START RAM_END"
    using assms unfolding BETWEEN_def addr_consts by (simp add: word_le_nat_alt)
  with assms show ?thesis
    unfolding tick_write_def Let_def tilemap_set_scroll_x_def off by simp
qed

lemma write_bg_scroll:
  assumes "BETWEEN a BG_SCROLL_START BG_SCROLL_END"
  shows "tick_write a d r =
     r\<lparr>main := (main r)\<lparr>bg_scroll := (bg_scroll (main r))(unat (a - 0xF803) := d)\<rparr>,
       bg_tilemap := (bg_tilemap r)\<lparr>scroll_x :=
          word_of_int (scroll_value ((bg_scroll (main r))(unat (a - 0xF803) := d)))\<rparr>\<rparr>"
proof -
  have off: "unat (ucast (a - BG_SCROLL_START) :: u8) = unat (a - 0xF803)"
    using offset_u8 [OF assms] by (simp add: addr_consts)
  have "\<not> BETWEEN a RAM_START RAM_END" "\<not> BETWEEN a FG_SCROLL_START FG_SCROLL_END"
    using assms unfolding BETWEEN_def addr_consts by (simp_all add: word_le_nat_alt)
  with assms show ?thesis
    unfolding tick_write_def Let_def tilemap_set_scroll_x_def off by simp
qed

lemma scroll_ranges:
  "BETWEEN (a::u16) 0xF800 0xF805 \<Longrightarrow> a \<le> 0xF802 \<Longrightarrow> BETWEEN a FG_SCROLL_START FG_SCROLL_END"
  "BETWEEN (a::u16) 0xF800 0xF805 \<Longrightarrow> \<not> a \<le> 0xF802 \<Longrightarrow> BETWEEN a BG_SCROLL_START BG_SCROLL_END"
  unfolding BETWEEN_def addr_consts
  by (simp_all add: word_le_nat_alt)

lemma scroll_write_general:
  assumes w: "is_mem_write p a d" and a: "BETWEEN a 0xF800 0xF805"
  shows "\<exists>p' s'. rygar_tick_main n p s = Inr (p', s') \<and>
      (if a \<le> 0xF802 then
         fg_scroll (main s') = (fg_scroll (main s))(unat (a - 0xF800) := d) \<and>
         fg_tilemap s' = tilemap_set_scroll_x (fg_tilemap s)
           ((push_bit 8 (uint (fg_scroll (main s') 1)) OR uint (fg_scroll (main s') 0)) + 48)
       else
         bg_scroll (main s') = (bg_scroll (main s))(unat (a - 0xF803) := d) \<and>
         bg_tilemap s' = tilemap_set_scroll_x (bg_tilemap s)
           ((push_bit 8 (uint (bg_scroll (main s') 1)) OR uint (bg_scroll (main s') 0)) + 48))"
proof -
  from w have run: "rygar_tick_main n p s =
      Inr (fst (tick_timing n p s), tick_write a d (snd (tick_timing n p s)))"
    using tick_main_write [of p n s] by (simp add: is_mem_write_def)
  show ?thesis
  proof (cases "a \<le> 0xF802")
    case True
    then show ?thesis unfolding run
      by (simp add: write_fg_scroll [OF scroll_ranges(1) [OF a True]] timing_state_fields
          scroll_value_def SCROLL_OFFSET_def tilemap_set_scroll_x_def)
  next
    case False
    then show ?thesis unfolding run
      by (simp add: write_bg_scroll [OF scroll_ranges(2) [OF a False]] timing_state_fields
          scroll_value_def SCROLL_OFFSET_def tilemap_set_scroll_x_def)
  qed
qed

lemma scroll_scenario:
  assumes w1: "is_mem_write p1 0xF800 0x10" and w2: "is_mem_write p2 0xF801 0x02"
  shows "\<exists>q1 s1 q2 s2. rygar_tick_main n1 p1 s = Inr (q1, s1) \<and>
           rygar_tick_main n2 p2 s1 = Inr (q2, s2) \<and> scroll_x (fg_tilemap s2) = 0x240"
proof -
  have r1: "BETWEEN (0xF800::u16) FG_SCROLL_START FG_SCROLL_END"
    and r2: "BETWEEN (0xF801::u16) FG_SCROLL_START FG_SCROLL_END"
    by (simp_all add: BETWEEN_def addr_consts)
  from w1 have run1: "rygar_tick_main n1 p1 s =
      Inr (fst (tick_timing n1 p1 s), tick_write 0xF800 0x10 (snd (tick_timing n1 p1 s)))"
    using tick_main_write [of p1 n1 s] by (simp add: is_mem_write_def)
  define s1 where "s1 = tick_write 0xF800 0x10 (snd (tick_timing n1 p1 s))"
  from w2 have run2: "rygar_tick_main n2 p2 s1 =
      Inr (fst (tick_timing n2 p2 s1), tick_write 0xF801 0x02 (snd (tick_timing n2 p2 s1)))"
    using tick_main_write [of p2 n2 s1] by (simp add: is_mem_write_def)
  have b0: "fg_scroll (main s1) 0 = 0x10"
    unfolding s1_def by (simp add: write_fg_scroll [OF r1])
  have "scroll_x (fg_tilemap (tick_write 0xF801 0x02 (snd (tick_timing n2 p2 s1)))) = 0x240"
    by (simp add: write_fg_scroll [OF r2] timing_state_fields scroll_value_def SCROLL_OFFSET_def b0)
  with run1 run2 show ?thesis unfolding s1_def by blast
qed

text \<open>
  C8. A CPU write of a byte to a scroll latch (\<^verbatim>\<open>0xF800..0xF802\<close> fg, \<^verbatim>\<open>0xF803..0xF805\<close>
  bg) stores the byte in its slot and hands the tilemap the value
  \<^verbatim>\<open>((scroll[1] << 8) | scroll[0]) + 48\<close> of the latch as it then is (the tilemap keeps
  it in 16 bits). Writing \<^verbatim>\<open>0x10\<close> to \<^verbatim>\<open>0xF800\<close> and then \<^verbatim>\<open>0x02\<close> to \<^verbatim>\<open>0xF801\<close>, from any
  state, leaves the fg scroll-X at \<^verbatim>\<open>0x240\<close>.
\<close>

theorem scroll_write_sets_scroll_x:
  assumes "is_mem_write p a d" and "BETWEEN a 0xF800 0xF805"
    and "is_mem_write p1 0xF800 0x10" and "is_mem_write p2 0xF801 0x02"
  shows "(\<exists>p' s'. rygar_tick_main n p s = Inr (p', s') \<and>
      (if a \<le> 0xF802 then
         fg_scroll (main s') = (fg_scroll (main s))(unat (a - 0xF800) := d) \<and>
         fg_tilemap s' = tilemap_set_scroll_x (fg_tilemap s)
           ((push_bit 8 (uint (fg_scroll (main s') 1)) OR uint (fg_scroll (main s') 0)) + 48)
       else
         bg_scroll (main s') = (bg_scroll (main s))(unat (a - 0xF803) := d) \<and>
         bg_tilemap s' = tilemap_set_scroll_x (bg_tilemap s)
           ((push_bit 8 (uint (bg_scroll (main s') 1)) OR uint (bg_scroll (main s') 0)) + 48)))
    \<and> (\<exists>q1 s1 q2 s2. rygar_tick_main n1 p1 t = Inr (q1, s1) \<and>
           rygar_tick_main n2 p2 s1 = Inr (q2, s2) \<and> scroll_x (fg_tilemap s2) = 0x240)"
  using scroll_write_general [OF assms(1,2)] scroll_scenario [OF assms(3,4)]
  by (rule conjI)

theorem scroll_write_sets_scroll_x_witness:
  "is_mem_write (mem_write_pins 0xF804 0x07) 0xF804 0x07 \<and> BETWEEN 0xF804 0xF800 0xF805 \<and>
   is_mem_write (mem_write_pins 0xF800 0x10) 0xF800 0x10 \<and>
   is_mem_write (mem_write_pins 0xF801 0x02) 0xF801 0x02 \<and>
   (\<exists>p' s'. rygar_tick_main 1 (mem_write_pins 0xF804 0x07) power_on = Inr (p', s') \<and>
      bg_scroll (main s') 1 = 0x07 \<and> scroll_x (bg_tilemap s') = 0x730) \<and>
   (\<exists>q1 s1 q2 s2. rygar_tick_main 1 (mem_write_pins 0xF800 0x10) power_on = Inr (q1, s1) \<and>
      rygar_tick_main 1 (mem_write_pins 0xF801 0x02) s1 = Inr (q2, s2) \<and>
      scroll_x (fg_tilemap s2) = 0x240)"
proof -
  have w: "is_mem_write (mem_write_pins 0xF804 0x07) 0xF804 0x07"
    and w1: "is_mem_write (mem_write_pins 0xF800 0x10) 0xF800 0x10"
    and w2: "is_mem_write (mem_write_pins 0xF801 0x02) 0xF801 0x02"
    by (simp_all add: is_mem_write_def mem_write_pins_def)
  have a: "BETWEEN 0xF804 0xF800 0xF805" by (simp add: BETWEEN_def)
  have z: "bg_scroll (main power_on) = (\<lambda>_. 0)"
    by (simp add: power_on_def rygar_init_def)
  from scroll_write_sets_scroll_x [OF w a w1 w2, of 1 power_on 1 power_on 1]
  show ?thesis using w w1 w2 a by (auto simp add: z tilemap_set_scroll_x_def)
qed

lemma scroll_value_third: "scroll_value (sc(2 := d)) = scroll_value sc"
  by (simp add: scroll_value_def)




subsection \<open>The bank register and the read routing\<close>

lemma bank_switch_stores:
  assumes "is_mem_write p 0xF808 d"
  shows "\<exists>p' s'. rygar_tick_main n p s = Inr (p', s') \<and> current_bank (main s') = drop_bit 3 d"
proof -
  from assms have "rygar_tick_main n p s =
      Inr (fst (tick_timing n p s), tick_write 0xF808 d (snd (tick_timing n p s)))"
    using tick_main_write [of p n s] by (simp add: is_mem_write_def)
  then show ?thesis
    by (simp add: tick_write_def BETWEEN_def addr_consts)
qed

text \<open>
  C2 against the source. Line 219 stores \<^verbatim>\<open>data >> 3\<close> with no mask, although its comment
  names the data bits 3 to 6. Writing \<^verbatim>\<open>0x80\<close> to \<^verbatim>\<open>0xF808\<close> makes the bank 16, where
  \<^verbatim>\<open>(0x80 & 0x78) >> 3\<close> is 0, and the read at \<^verbatim>\<open>0xF000\<close> that follows indexes
  \<^verbatim>\<open>banked_rom[0x8000]\<close>, past the end of the array.
\<close>

theorem bank_switch_keeps_bit7:
  "map_sum id (current_bank \<circ> main \<circ> snd)
     (rygar_tick_main 1 (mem_write_pins 0xF808 0x80) power_on) = Inr 16 \<and>
   drop_bit 3 ((0x80 :: u8) AND 0x78) = 0 \<and>
   run_ticks [mem_write_pins 0xF808 0x80, mem_read_pins 0xF000] power_on
     = Inl BankedRomOutOfBounds"
  by (simp add: rygar_tick_main_def tick_timing_def tick_read_def tick_write_def Let_def
      mem_read_pins_def mem_write_pins_def Z80_GET_ADDR_def Z80_GET_DATA_def Z80_SET_DATA_def
      BETWEEN_def addr_consts BANK_SIZE_def
      power_on_def rygar_init_def VSYNC_PERIOD_4MHZ_def VBLANK_DURATION_4MHZ_def)

lemma banked_addr_unat:
  assumes "BETWEEN a BANK_WINDOW_START BANK_WINDOW_END" and b: "unat (b :: u8) < 32"
  shows "unat (a - BANK_WINDOW_START + ucast b * BANK_WINDOW_SIZE)
           = unat (a - 0xF000) + unat b * 0x800"
    and "unat (a - 0xF000) < 0x800"
proof -
  from assms have "0xF000 \<le> a" "a \<le> 0xF7FF"
    by (simp_all add: BETWEEN_def addr_consts)
  then have off: "unat (a - 0xF000) = unat a - 0xF000" "unat a \<le> 0xF7FF"
    by (simp_all add: unat_sub word_le_nat_alt)
  then show lt: "unat (a - 0xF000) < 0x800" by simp
  have "unat (ucast b * (0x800 :: u16)) = unat b * 0x800"
    using b by (simp add: unat_word_ariths unsigned_ucast_eq take_bit_nat_eq_self)
  with lt b show "unat (a - BANK_WINDOW_START + ucast b * BANK_WINDOW_SIZE)
           = unat (a - 0xF000) + unat b * 0x800"
    by (simp add: addr_consts unat_word_ariths)
qed

lemma read_bank_window:
  assumes a: "BETWEEN a BANK_WINDOW_START BANK_WINDOW_END"
    and b: "unat (current_bank (main r)) < 16"
  shows "tick_read a q r =
     Inr (q\<lparr>pin_data := banked_rom (main r) (unat (current_bank (main r)) * 0x800 + unat (a - 0xF000))\<rparr>)"
proof -
  from b have b32: "unat (current_bank (main r)) < 32" by simp
  note ba = banked_addr_unat [OF a b32]
  have hi: "\<not> a \<le> RAM_END"
    using a unfolding BETWEEN_def addr_consts by (simp add: word_le_nat_alt)
  have inb: "unat (a - 0xF000) + unat (current_bank (main r)) * 0x800 < BANK_SIZE"
    using ba(2) b by (simp add: BANK_SIZE_def)
  show ?thesis
    unfolding tick_read_def Let_def ba(1)
    using hi a inb by (simp add: Z80_SET_DATA_def add.commute)
qed

lemma read_io:
  assumes "0xF7FF < a"
  shows "tick_read a q r =
     Inr (q\<lparr>pin_data :=
        (if a = 0xF800 then joystick (main r)
         else if a = 0xF801 then buttons (main r)
         else if a = 0xF804 then sys (main r)
         else if a = 0xF809 then 0x08
         else 0x00)\<rparr>)"
proof -
  have "\<not> a \<le> RAM_END" "\<not> BETWEEN a BANK_WINDOW_START BANK_WINDOW_END"
    using assms unfolding BETWEEN_def addr_consts by (simp_all add: word_le_nat_alt word_less_nat_alt)
  then show ?thesis
    unfolding tick_read_def Let_def
    by (simp add: Z80_SET_DATA_def JOYSTICK1_def BUTTONS1_def SYS1_def DIP_SW2_H_def)
qed

text \<open>
  C9, as the source has it. A CPU read cycle (MREQ and RD high, WR low) at an address
  above \<^verbatim>\<open>0xEFFF\<close> returns: in \<^verbatim>\<open>0xF000..0xF7FF\<close> the banked ROM byte
  \<^verbatim>\<open>banked_rom[current_bank * 0x800 + (addr - 0xF000)]\<close> (for a bank below 16); at
  \<^verbatim>\<open>0xF800\<close>, \<^verbatim>\<open>0xF801\<close> and \<^verbatim>\<open>0xF804\<close> the joystick, buttons and sys bytes; at \<^verbatim>\<open>0xF809\<close>
  (\<^verbatim>\<open>DIP_SW2_H\<close>) the constant \<^verbatim>\<open>0x08\<close>; at every other address, \<^verbatim>\<open>0xF807\<close> among them,
  \<^verbatim>\<open>0x00\<close>. The state changes as the timing step changes it, and in nothing else.
\<close>

theorem read_above_ram:
  assumes rd: "pin_MREQ p" "pin_RD p" "\<not> pin_WR p"
    and a: "0xEFFF < pin_addr p"
    and b: "unat (current_bank (main s)) < 16 \<or> 0xF7FF < pin_addr p"
  shows "rygar_tick_main n p s =
     Inr ((fst (tick_timing n p s))\<lparr>pin_data :=
            (if pin_addr p \<le> 0xF7FF
             then banked_rom (main s)
                    (unat (current_bank (main s)) * 0x800 + unat (pin_addr p - 0xF000))
             else if pin_addr p = 0xF800 then joystick (main s)
             else if pin_addr p = 0xF801 then buttons (main s)
             else if pin_addr p = 0xF804 then sys (main s)
             else if pin_addr p = 0xF809 then 0x08
             else 0x00)\<rparr>,
          snd (tick_timing n p s))"
proof (cases "pin_addr p \<le> 0xF7FF")
  case True
  with a have w: "BETWEEN (pin_addr p) BANK_WINDOW_START BANK_WINDOW_END"
    unfolding BETWEEN_def addr_consts by (simp add: word_le_nat_alt word_less_nat_alt)
  from True b have "unat (current_bank (main s)) < 16" by auto
  then have "unat (current_bank (main (snd (tick_timing n p s)))) < 16"
    by (simp add: timing_state_fields)
  from read_bank_window [OF w this] True show ?thesis
    by (simp add: tick_main_read [OF rd(1,3,2)] timing_state_fields)
next
  case False
  then have "0xF7FF < pin_addr p" by simp
  from read_io [OF this] False show ?thesis
    by (simp add: tick_main_read [OF rd(1,3,2)] timing_state_fields)
qed

theorem read_above_ram_witness:
  "pin_MREQ (mem_read_pins 0xF809) \<and> pin_RD (mem_read_pins 0xF809) \<and>
   \<not> pin_WR (mem_read_pins 0xF809) \<and> 0xEFFF < pin_addr (mem_read_pins 0xF809) \<and>
   0xF7FF < pin_addr (mem_read_pins 0xF809) \<and>
   map_sum id (pin_data \<circ> fst) (rygar_tick_main 1 (mem_read_pins 0xF809) power_on) = Inr 0x08"
  using read_above_ram [of "mem_read_pins 0xF809" power_on 1]
  by (simp add: mem_read_pins_def)

text \<open>
  C9 as stated fails: a read at \<^verbatim>\<open>0xF807\<close> returns \<^verbatim>\<open>0x00\<close>, and a read at \<^verbatim>\<open>0xF809\<close>
  returns \<^verbatim>\<open>0x08\<close>.
\<close>

theorem read_f807_not_8:
  "map_sum id (pin_data \<circ> fst) (rygar_tick_main 1 (mem_read_pins 0xF807) power_on) = Inr 0x00 \<and>
   map_sum id (pin_data \<circ> fst) (rygar_tick_main 1 (mem_read_pins 0xF809) power_on) = Inr 0x08"
  by (simp add: rygar_tick_main_def tick_timing_def tick_read_def Let_def
      mem_read_pins_def Z80_GET_ADDR_def Z80_SET_DATA_def BETWEEN_def addr_consts
      power_on_def rygar_init_def VSYNC_PERIOD_4MHZ_def VBLANK_DURATION_4MHZ_def)

subsection \<open>Vsync, vblank and the INT pin\<close>

lemma int_upto_Suc: "int_upto (Suc t) = int_upto t + (if t mod 66666 < 5292 then 1 else 0)"
  unfolding int_upto_def
  by (auto simp add: mod_Suc div_Suc min_def)

lemma int_upto_period: "int_upto (t + 66666) = int_upto t + 5292"
proof -
  have "(t + 66666) div 66666 = Suc (t div 66666)"
    using div_add_self2 [of 66666 t] by simp
  then show ?thesis
    by (simp add: int_upto_def)
qed

lemma tick1_in_frame:
  assumes f: "in_frame s" and p: "\<not> pin_INT p" "\<not> is_int_ack p"
    and run: "rygar_tick_main 1 p s = Inr (p', s')"
  shows "in_frame s'"
    and "frame_pos s' = (if frame_pos s = 66665 then 0 else frame_pos s + 1)"
    and "pin_INT p' = (frame_pos s = 66665 \<or> frame_pos s + 1 < 5292)"
proof -
  note tm = tick_main_timing [OF run]
  from f have v: "1 \<le> vsync_count s" "vsync_count s \<le> 66666"
    and b: "vblank_count s = max 0 (vsync_count s - 61375)"
    by (simp_all add: in_frame_def VSYNC_PERIOD_4MHZ_def VBLANK_DURATION_4MHZ_def)
  have v': "vsync_count s' = (if vsync_count s = 1 then 66666 else vsync_count s - 1)"
    using v unfolding tm(1) by (simp add: timing_counters VSYNC_PERIOD_4MHZ_def)
  have b': "vblank_count s' = (if vsync_count s = 1 then 5291
      else if 0 < vblank_count s then vblank_count s - 1 else 0)"
    using v unfolding tm(2) by (auto simp add: timing_counters VBLANK_DURATION_4MHZ_def)
  show "in_frame s'"
    using v b unfolding in_frame_def v' b'
    by (auto simp add: VSYNC_PERIOD_4MHZ_def VBLANK_DURATION_4MHZ_def max_def)
  show "frame_pos s' = (if frame_pos s = 66665 then 0 else frame_pos s + 1)"
    using v unfolding frame_pos_def v'
    by (auto simp add: VSYNC_PERIOD_4MHZ_def)
  show "pin_INT p' = (frame_pos s = 66665 \<or> frame_pos s + 1 < 5292)"
    using v b p unfolding tm(3) timing_int frame_pos_def
    by (auto simp add: VSYNC_PERIOD_4MHZ_def max_def)
qed

lemma frame_pos_less: "in_frame s \<Longrightarrow> frame_pos s < 66666"
  by (auto simp add: in_frame_def frame_pos_def VSYNC_PERIOD_4MHZ_def)

lemma run_in_frame:
  assumes "in_frame s" and "\<forall>p\<in>set ps. \<not> pin_INT p \<and> \<not> is_int_ack p"
    and "run_ticks ps s = Inr (outs, s')"
  shows "in_frame s' \<and>
         int_ticks outs + int_upto (frame_pos s + 1) = int_upto (frame_pos s + length ps + 1)"
  using assms
proof (induction ps arbitrary: s outs)
  case Nil
  then show ?case by (simp add: int_ticks_def)
next
  case (Cons p ps)
  from Cons.prems(3) obtain q s1 outs1 where
    t: "rygar_tick_main 1 p s = Inr (q, s1)" and r: "run_ticks ps s1 = Inr (outs1, s')"
    and o: "outs = q # outs1"
    by (auto split: sum.splits)
  from Cons.prems(2) have pp: "\<not> pin_INT p" "\<not> is_int_ack p"
    and rest: "\<forall>p\<in>set ps. \<not> pin_INT p \<and> \<not> is_int_ack p"
    by simp_all
  note step = tick1_in_frame [OF Cons.prems(1) pp t]
  from Cons.IH [OF step(1) rest r]
  have f': "in_frame s'"
    and ih: "int_ticks outs1 + int_upto (frame_pos s1 + 1) = int_upto (frame_pos s1 + length ps + 1)"
    by simp_all
  have lt: "frame_pos s < 66666" by (rule frame_pos_less [OF Cons.prems(1)])
  have "int_ticks outs + int_upto (frame_pos s + 1) = int_upto (frame_pos s + length (p # ps) + 1)"
  proof (cases "frame_pos s = 66665")
    case True
    then have p1: "frame_pos s1 = 0" and i: "pin_INT q" using step by simp_all
    from ih have "int_ticks outs1 + 1 = int_upto (length ps + 1)"
      by (simp add: p1 int_upto_def)
    moreover have "int_upto (frame_pos s + 1) = 5292"
      by (simp add: True int_upto_def)
    moreover have "int_upto (frame_pos s + length (p # ps) + 1) = int_upto (length ps + 1) + 5292"
      using int_upto_period [of "length ps + 1"] by (simp add: True add.commute)
    ultimately show ?thesis using i by (simp add: o int_ticks_def)
  next
    case False
    then have p1: "frame_pos s1 = frame_pos s + 1"
      and i: "pin_INT q = (frame_pos s + 1 < 5292)" using step by simp_all
    have "int_upto (Suc (frame_pos s + 1)) = int_upto (frame_pos s + 1)
        + (if frame_pos s + 1 < 5292 then 1 else 0)"
      using lt False by (simp add: int_upto_Suc)
    with ih show ?thesis using i by (auto simp add: o int_ticks_def p1)
  qed
  with f' show ?case by simp
qed

lemma period_count:
  assumes "in_frame s" and "length ps = 66666"
    and "\<forall>p\<in>set ps. \<not> pin_INT p \<and> \<not> is_int_ack p"
    and "run_ticks ps s = Inr (outs, s')"
  shows "int_ticks outs = 5292"
  using run_in_frame [OF assms(1,3,4)] int_upto_period [of "frame_pos s + 1"]
  by (simp add: assms(2) add.commute add.left_commute)

lemma run_ticks_total:
  assumes "\<forall>p\<in>set ps. \<not> (pin_MREQ p \<and> pin_RD p \<and> \<not> pin_WR p)"
  shows "\<exists>outs s'. run_ticks ps s = Inr (outs, s')"
  using assms
proof (induction ps arbitrary: s)
  case Nil
  then show ?case by simp
next
  case (Cons p ps)
  then obtain q s1 where t: "rygar_tick_main 1 p s = Inr (q, s1)"
    using tick_total [of p 1 s] by auto
  from Cons obtain outs s' where "run_ticks ps s1 = Inr (outs, s')"
    by fastforce
  with t show ?case by simp
qed

lemma run_idle_total: "\<exists>outs s'. run_ticks (replicate k idle_pins) s = Inr (outs, s')"
  by (rule run_ticks_total) (simp add: idle_pins_def)

lemma idle_ok: "\<not> pin_INT idle_pins \<and> \<not> is_int_ack idle_pins"
  by (simp add: idle_pins_def is_int_ack_def)

text \<open>
  C1, as the source has it. The macros are C integer expressions: the period is
  \<^verbatim>\<open>4000000 / 60 = 66666\<close> ticks and the vblank lasts \<^verbatim>\<open>(66666 / 525) * 42 = 5292\<close> ticks.
  Once the first reload has happened, any 66666 consecutive single ticks, none of them an
  acknowledge, each presented with INT low and none reading the bank window out of
  bounds (the run returns), return INT high on exactly 5292 ticks. A
  tick that brings \<^verbatim>\<open>vsync_count\<close> to 0 or below adds 66666 to it and sets \<^verbatim>\<open>vblank_count\<close>
  to 5292, from which the same call takes its tick count.
\<close>

theorem vblank_period_int_ticks:
  assumes "in_frame s" and "length ps = 66666"
    and "\<forall>p\<in>set ps. \<not> pin_INT p \<and> \<not> is_int_ack p"
    and "run_ticks ps s = Inr (outs, s')"
    and "rygar_tick_main n p0 s0 = Inr (q0, s1)" and "vsync_count s0 - n \<le> 0"
  shows "int_ticks outs = 5292 \<and> in_frame s' \<and>
         vsync_count s1 = vsync_count s0 - n + 66666 \<and> vblank_count s1 = 5292 - n"
proof -
  have "int_ticks outs = 5292" by (rule period_count [OF assms(1-4)])
  moreover have "in_frame s'" using run_in_frame [OF assms(1,3,4)] by simp
  moreover have "vsync_count s1 = vsync_count s0 - n + 66666" "vblank_count s1 = 5292 - n"
    using assms(6) tick_main_timing(1,2) [OF assms(5)]
    by (simp_all add: timing_counters VSYNC_PERIOD_4MHZ_def VBLANK_DURATION_4MHZ_def)
  ultimately show ?thesis by simp
qed

theorem vblank_period_int_ticks_witness:
  "in_frame (power_on\<lparr>vblank_count := 5291\<rparr>) \<and>
   length (replicate 66666 idle_pins) = 66666 \<and>
   \<not> pin_INT idle_pins \<and> \<not> is_int_ack idle_pins \<and>
   (\<exists>outs s'. run_ticks (replicate 66666 idle_pins) (power_on\<lparr>vblank_count := 5291\<rparr>)
        = Inr (outs, s') \<and> int_ticks outs = 5292) \<and>
   vsync_count (power_on\<lparr>vsync_count := 1\<rparr>) - 1 \<le> 0 \<and>
   (\<exists>q0 s1. rygar_tick_main 1 idle_pins (power_on\<lparr>vsync_count := 1\<rparr>) = Inr (q0, s1) \<and>
      vsync_count s1 = 66666 \<and> vblank_count s1 = 5291)"
proof -
  have f: "in_frame (power_on\<lparr>vblank_count := 5291\<rparr>)"
    by (simp add: in_frame_def power_on_def rygar_init_def
        VSYNC_PERIOD_4MHZ_def VBLANK_DURATION_4MHZ_def)
  have l: "length (replicate 66666 idle_pins) = 66666" by simp
  have a: "\<forall>p\<in>set (replicate 66666 idle_pins). \<not> pin_INT p \<and> \<not> is_int_ack p"
    using idle_ok by simp
  obtain outs s' where r: "run_ticks (replicate 66666 idle_pins)
      (power_on\<lparr>vblank_count := 5291\<rparr>) = Inr (outs, s')"
    using run_idle_total by blast
  obtain q0 s1 where t: "rygar_tick_main 1 idle_pins (power_on\<lparr>vsync_count := 1\<rparr>) = Inr (q0, s1)"
  proof -
    have "\<not> (pin_MREQ idle_pins \<and> pin_RD idle_pins \<and> \<not> pin_WR idle_pins)"
      by (simp add: idle_pins_def)
    from tick_total [OF this, of 1 "power_on\<lparr>vsync_count := 1\<rparr>"] that
    show ?thesis by blast
  qed
  have v: "vsync_count (power_on\<lparr>vsync_count := 1\<rparr>) - 1 \<le> 0" by simp
  from vblank_period_int_ticks [OF f l a r t v]
  have "int_ticks outs = 5292" "vsync_count s1 = 66666" "vblank_count s1 = 5291"
    by simp_all
  with f l idle_ok r t v show ?thesis by blast
qed

text \<open>
  C1 as stated fails: the reload adds 66666, not 66667, and loads 5292, not 5333; and a
  window of 66667 ticks that starts right after a reload has 5293 ticks with INT high.
\<close>

theorem vsync_reload_not_66667:
  "VSYNC_PERIOD_4MHZ = 66666 \<and> VBLANK_DURATION_4MHZ = 5292 \<and>
   map_sum id (vsync_count \<circ> snd)
     (rygar_tick_main 1 idle_pins (power_on\<lparr>vsync_count := 1\<rparr>)) = Inr 66666 \<and>
   map_sum id (vblank_count \<circ> snd)
     (rygar_tick_main 1 idle_pins (power_on\<lparr>vsync_count := 1\<rparr>)) = Inr 5291 \<and>
   map_sum id (int_ticks \<circ> fst)
     (run_ticks (replicate 66667 idle_pins) (power_on\<lparr>vblank_count := 5291\<rparr>)) = Inr 5293"
proof -
  have c: "VSYNC_PERIOD_4MHZ = 66666" "VBLANK_DURATION_4MHZ = 5292"
    by (simp_all add: VSYNC_PERIOD_4MHZ_def VBLANK_DURATION_4MHZ_def)
  have t: "rygar_tick_main 1 idle_pins (power_on\<lparr>vsync_count := 1\<rparr>) =
      Inr (fst (tick_timing 1 idle_pins (power_on\<lparr>vsync_count := 1\<rparr>)),
           snd (tick_timing 1 idle_pins (power_on\<lparr>vsync_count := 1\<rparr>)))"
    by (rule tick_main_other) (simp_all add: idle_pins_def is_int_ack_def)
  have f: "in_frame (power_on\<lparr>vblank_count := 5291\<rparr>)"
    by (simp add: in_frame_def power_on_def rygar_init_def c)
  have p0: "frame_pos (power_on\<lparr>vblank_count := 5291\<rparr>) = 0"
    by (simp add: frame_pos_def power_on_def rygar_init_def)
  have a: "\<forall>p\<in>set (replicate 66667 idle_pins). \<not> pin_INT p \<and> \<not> is_int_ack p"
    using idle_ok by simp
  obtain outs s' where r: "run_ticks (replicate 66667 idle_pins)
      (power_on\<lparr>vblank_count := 5291\<rparr>) = Inr (outs, s')"
    using run_idle_total by blast
  from run_in_frame [OF f a r] have "int_ticks outs = 5293"
    by (simp add: p0 int_upto_def)
  with r c show ?thesis
    by (simp add: t timing_counters)
qed

text \<open>
  The first period after \<^verbatim>\<open>rygar_init\<close> is different: \<^verbatim>\<open>vblank_count\<close> starts at 0, and
  the first 66666 ticks return INT high once, on the reload. They end in the state the
  statements above start from.
\<close>

lemma run_ticks_append:
  "run_ticks (xs @ ys) s =
    (case run_ticks xs s of
       Inl e \<Rightarrow> Inl e
     | Inr (o1, s1) \<Rightarrow>
        (case run_ticks ys s1 of
           Inl e \<Rightarrow> Inl e
         | Inr (o2, s2) \<Rightarrow> Inr (o1 @ o2, s2)))"
  by (induction xs arbitrary: s) (auto split: sum.splits)

lemma run_before_reload:
  assumes "vblank_count s = 0" and "int (length ps) < vsync_count s"
    and "\<forall>p\<in>set ps. \<not> pin_INT p \<and> \<not> is_int_ack p"
    and "run_ticks ps s = Inr (outs, s')"
  shows "vblank_count s' = 0 \<and> vsync_count s' = vsync_count s - int (length ps) \<and>
         int_ticks outs = 0"
  using assms
proof (induction ps arbitrary: s outs)
  case Nil
  then show ?case by (simp add: int_ticks_def)
next
  case (Cons p ps)
  from Cons.prems(4) obtain q s1 outs1 where
    t: "rygar_tick_main 1 p s = Inr (q, s1)" and r: "run_ticks ps s1 = Inr (outs1, s')"
    and o: "outs = q # outs1"
    by (auto split: sum.splits)
  note tm = tick_main_timing [OF t]
  from Cons.prems(2) have v: "1 < vsync_count s" by simp
  have b1: "vblank_count s1 = 0" and v1: "vsync_count s1 = vsync_count s - 1"
    using v Cons.prems(1) unfolding tm by (simp_all add: timing_counters)
  have q: "\<not> pin_INT q"
    using v Cons.prems(1,3) unfolding tm by (simp add: timing_int)
  have "int (length ps) < vsync_count s1" using Cons.prems(2) v1 by simp
  from Cons.IH [OF b1 this _ r] Cons.prems(3) q show ?case
    by (simp add: v1 o int_ticks_def)
qed

lemma idle_tick_state:
  assumes "rygar_tick_main n idle_pins s = Inr (q, s')"
  shows "s' = s\<lparr>vsync_count := vsync_count s', vblank_count := vblank_count s'\<rparr>"
proof -
  have "rygar_tick_main n idle_pins s =
      Inr (fst (tick_timing n idle_pins s), snd (tick_timing n idle_pins s))"
    by (rule tick_main_other) (simp_all add: idle_pins_def is_int_ack_def)
  with assms have "s' = snd (tick_timing n idle_pins s)" by simp
  then show ?thesis using timing_state [of n idle_pins s] by simp
qed

lemma idle_run_state:
  assumes "run_ticks (replicate k idle_pins) s = Inr (outs, s')"
  shows "s' = s\<lparr>vsync_count := vsync_count s', vblank_count := vblank_count s'\<rparr>"
  using assms
proof (induction k arbitrary: s outs)
  case 0
  then show ?case by simp
next
  case (Suc k)
  from Suc.prems obtain q s1 outs1 where
    t: "rygar_tick_main 1 idle_pins s = Inr (q, s1)"
    and r: "run_ticks (replicate k idle_pins) s1 = Inr (outs1, s')"
    by (auto split: sum.splits)
  from Suc.IH [OF r] have "s' = s1\<lparr>vsync_count := vsync_count s', vblank_count := vblank_count s'\<rparr>" .
  also have "s1 = s\<lparr>vsync_count := vsync_count s1, vblank_count := vblank_count s1\<rparr>"
    by (rule idle_tick_state [OF t])
  finally show ?case by simp
qed

lemma first_window:
  assumes v: "vsync_count s = VSYNC_PERIOD_4MHZ" and b: "vblank_count s = 0"
    and l: "length ps = 66666"
    and g: "\<forall>p\<in>set ps. \<not> pin_INT p \<and> \<not> is_int_ack p"
    and r: "run_ticks ps s = Inr (outs, s')"
  shows "int_ticks outs = 1 \<and> in_frame s' \<and> vsync_count s' = 66666 \<and> vblank_count s' = 5291"
proof -
  from l have ne: "ps \<noteq> []" by auto
  then have split: "ps = butlast ps @ [last ps]" by simp
  from r obtain o1 s1 q where
    r1: "run_ticks (butlast ps) s = Inr (o1, s1)"
    and t: "rygar_tick_main 1 (last ps) s1 = Inr (q, s')"
    and o: "outs = o1 @ [q]"
    by (subst (asm) split, simp only: run_ticks_append) (auto split: sum.splits)
  have g1: "\<forall>p\<in>set (butlast ps). \<not> pin_INT p \<and> \<not> is_int_ack p"
    using g by (auto dest: in_set_butlastD)
  have gl: "\<not> pin_INT (last ps)" "\<not> is_int_ack (last ps)"
    using g ne by simp_all
  have "int (length (butlast ps)) < vsync_count s"
    using l v by (simp add: VSYNC_PERIOD_4MHZ_def)
  from run_before_reload [OF b this g1 r1]
  have m: "vblank_count s1 = 0" "vsync_count s1 = 1" "int_ticks o1 = 0"
    using l v by (simp_all add: VSYNC_PERIOD_4MHZ_def)
  note tm = tick_main_timing [OF t]
  have "pin_INT q" unfolding tm using gl m by (simp add: timing_int)
  moreover have c: "vsync_count s' = 66666" "vblank_count s' = 5291"
    unfolding tm using m
    by (simp_all add: timing_counters VSYNC_PERIOD_4MHZ_def VBLANK_DURATION_4MHZ_def)
  moreover have "in_frame s'"
    unfolding in_frame_def c
    by (simp add: VSYNC_PERIOD_4MHZ_def VBLANK_DURATION_4MHZ_def)
  ultimately show ?thesis using m by (simp add: o int_ticks_def)
qed

lemma first_window_power_on:
  "\<exists>outs. run_ticks (replicate 66666 idle_pins) power_on
             = Inr (outs, power_on\<lparr>vblank_count := 5291\<rparr>) \<and>
          int_ticks outs = 1"
proof -
  obtain outs s' where r: "run_ticks (replicate 66666 idle_pins) power_on = Inr (outs, s')"
    using run_idle_total by blast
  have w: "int_ticks outs = 1 \<and> in_frame s' \<and> vsync_count s' = 66666 \<and> vblank_count s' = 5291"
    by (rule first_window [OF _ _ _ _ r])
       (simp_all add: power_on_def rygar_init_def idle_ok)
  have "vsync_count power_on = 66666"
    by (simp add: power_on_def rygar_init_def VSYNC_PERIOD_4MHZ_def)
  then have "power_on\<lparr>vsync_count := 66666, vblank_count := 5291\<rparr>
      = power_on\<lparr>vblank_count := 5291\<rparr>"
    by (cases power_on) simp
  with idle_run_state [OF r] w have "s' = power_on\<lparr>vblank_count := 5291\<rparr>" by simp
  with r w show ?thesis by simp
qed

text \<open>
  C4, as the source has it. Whatever the cycle, if it returns (it is no read of the bank
  window out of bounds), the returned INT pin is high exactly when
  the cycle is not an interrupt acknowledge (IORQ and M1 high, MREQ low) and the pin came
  in high, or a reload happens on this tick, or \<^verbatim>\<open>vblank_count\<close> is still positive. So an
  acknowledge returns INT low on its own cycle, and the next tick inside the vblank window
  raises it again; it stays low only once \<^verbatim>\<open>vblank_count\<close> has run down to 0.
\<close>

theorem int_pin_after_ack:
  assumes "rygar_tick_main n p s = Inr (p', s')"
  shows "pin_INT p' = (\<not> is_int_ack p \<and> (pin_INT p \<or> vsync_count s \<le> n \<or> 0 < vblank_count s))"
  using tick_main_timing(3) [OF assms] by (simp add: timing_int)

text \<open>A state inside the vblank window, 666 ticks after a reload.\<close>

lemma vblank_window_state:
  "in_frame (power_on\<lparr>vsync_count := 66000, vblank_count := 4625\<rparr>)"
  by (simp add: in_frame_def VSYNC_PERIOD_4MHZ_def VBLANK_DURATION_4MHZ_def)

theorem int_pin_after_ack_witness:
  "\<exists>q1 s1 q2 s2.
     rygar_tick_main 1 int_ack_pins (power_on\<lparr>vsync_count := 66000, vblank_count := 4625\<rparr>)
       = Inr (q1, s1) \<and>
     rygar_tick_main 1 idle_pins s1 = Inr (q2, s2) \<and>
     is_int_ack int_ack_pins \<and> \<not> pin_INT q1 \<and>
     \<not> is_int_ack idle_pins \<and> 0 < vblank_count s1 \<and> pin_INT q2"
proof -
  let ?s = "power_on\<lparr>vsync_count := 66000, vblank_count := 4625\<rparr>"
  have ack: "is_int_ack int_ack_pins" by (simp add: is_int_ack_def int_ack_pins_def)
  obtain q1 s1 where t1: "rygar_tick_main 1 int_ack_pins ?s = Inr (q1, s1)"
    using tick_main_ack [OF ack, of 1 ?s] by blast
  have b1: "vblank_count s1 = 4624"
    using tick_main_timing(2) [OF t1] by (simp add: timing_counters)
  have "\<not> (pin_MREQ idle_pins \<and> pin_RD idle_pins \<and> \<not> pin_WR idle_pins)"
    by (simp add: idle_pins_def)
  from tick_total [OF this, of 1 s1]
  obtain q2 s2 where t2: "rygar_tick_main 1 idle_pins s1 = Inr (q2, s2)" by blast
  have "\<not> pin_INT q1" using int_pin_after_ack [OF t1] ack by simp
  moreover have "pin_INT q2" using int_pin_after_ack [OF t2] idle_ok b1 by simp
  ultimately show ?thesis using t1 t2 ack idle_ok b1 by auto
qed

text \<open>
  C4 as stated fails: inside a vblank window, the tick after an acknowledge returns INT
  high again, with no reload in between (\<^verbatim>\<open>vsync_count\<close> goes from 66000 to 65998).
\<close>

theorem int_reasserted_after_ack:
  "map_sum id (map pin_INT \<circ> fst)
     (run_ticks [int_ack_pins, idle_pins]
        (power_on\<lparr>vsync_count := 66000, vblank_count := 4625\<rparr>)) = Inr [False, True] \<and>
   map_sum id (vsync_count \<circ> snd)
     (run_ticks [int_ack_pins, idle_pins]
        (power_on\<lparr>vsync_count := 66000, vblank_count := 4625\<rparr>)) = Inr 65998"
  by (simp add: rygar_tick_main_def tick_timing_def Let_def
      int_ack_pins_def idle_pins_def Z80_GET_ADDR_def
      VSYNC_PERIOD_4MHZ_def VBLANK_DURATION_4MHZ_def)

end
